theory Spec2Isabelle
  imports Main "HOL-Library.Sublist"
begin

section \<open>Python values, errors and strings\<close>

text \<open>
  The scripts of the benchmark pass around untyped Python values: the cells of a CSV row,
  the arguments of a tool call (whatever the telemetry line evaluates to), the scores of
  the judge. They are modelled by one datatype; floats are left out. A dictionary keeps
  its insertion order, so it is an association list. A character of the model is one
  character of a Python string (texts over the 8-bit range).
\<close>

datatype pyval =
    PNone
  | PBool bool
  | PInt int
  | PStr string
  | PList "pyval list"
  | PDict "(string \<times> pyval) list"

datatype error = ValueError | TypeError | AttributeError | IndexError | KeyError

type_synonym row = "(string \<times> pyval) list"

text \<open>Truthiness, as tested by \<^verbatim>\<open>if not x\<close> and \<^verbatim>\<open>x or y\<close>.\<close>

fun truthy :: "pyval \<Rightarrow> bool" where
  "truthy PNone = False"
| "truthy (PBool b) = b"
| "truthy (PInt n) = (n \<noteq> 0)"
| "truthy (PStr s) = (s \<noteq> [])"
| "truthy (PList xs) = (xs \<noteq> [])"
| "truthy (PDict d) = (d \<noteq> [])"

text \<open>\<^verbatim>\<open>d.get(k, default)\<close> and \<^verbatim>\<open>d[k] = v\<close> on a dictionary.\<close>

definition dict_get :: "row \<Rightarrow> string \<Rightarrow> pyval \<Rightarrow> pyval" where
  "dict_get d k dflt = (case map_of d k of Some v \<Rightarrow> v | None \<Rightarrow> dflt)"

fun dict_set :: "('k \<times> 'v) list \<Rightarrow> 'k \<Rightarrow> 'v \<Rightarrow> ('k \<times> 'v) list" where
  "dict_set [] k v = [(k, v)]"
| "dict_set ((k', v') # d) k v = (if k' = k then (k, v) # d else (k', v') # dict_set d k v)"

definition dict_has :: "row \<Rightarrow> string \<Rightarrow> bool" where
  "dict_has d k = (map_of d k \<noteq> None)"

text \<open>\<^verbatim>\<open>s.startswith(p)\<close> and the substring test \<^verbatim>\<open>sub in s\<close>.\<close>

fun starts_with :: "string \<Rightarrow> string \<Rightarrow> bool" where
  "starts_with s [] = True"
| "starts_with [] (p # ps) = False"
| "starts_with (c # cs) (p # ps) = (c = p \<and> starts_with cs ps)"

fun contains :: "string \<Rightarrow> string \<Rightarrow> bool" where
  "contains sub [] = (sub = [])"
| "contains sub (c # cs) = (starts_with (c # cs) sub \<or> contains sub cs)"

text \<open>The characters \<^verbatim>\<open>str.strip()\<close> removes, and the decimal digits \<^verbatim>\<open>\d\<close> matches.\<close>

definition is_space :: "char \<Rightarrow> bool" where
  "is_space c = (c \<in> set [CHR 0x09, CHR 0x0A, CHR 0x0B, CHR 0x0C, CHR 0x0D,
                            CHR 0x1C, CHR 0x1D, CHR 0x1E, CHR 0x1F, CHR 0x20,
                            CHR 0x85, CHR 0xA0])"

definition strip :: "string \<Rightarrow> string" where
  "strip s = rev (dropWhile is_space (rev (dropWhile is_space s)))"

definition is_digit :: "char \<Rightarrow> bool" where
  "is_digit c = (c \<in> set ''0123456789'')"

text \<open>
  \<^verbatim>\<open>str.upper()\<close> on a text of the model, as the code points of the result: the
  letters a to z and those from 0xE0 to 0xFE (the division sign apart) move down by 0x20,
  the micro sign becomes the Greek capital mu (0x39C), the sharp s becomes SS, y with
  diaeresis becomes 0x178, and every other character is left as it is.
\<close>

definition upper_point :: "nat \<Rightarrow> nat list" where
  "upper_point n =
     (if 97 \<le> n \<and> n \<le> 122 then [n - 32]
      else if 224 \<le> n \<and> n \<le> 254 \<and> n \<noteq> 247 then [n - 32]
      else if n = 181 then [924]
      else if n = 223 then [83, 83]
      else if n = 255 then [376]
      else [n])"

definition upper :: "string \<Rightarrow> nat list" where
  "upper s = concat (map (\<lambda>c. upper_point (of_char c)) s)"


section \<open>parse\_results.py: tool calls and their outcome\<close>

text \<open>
  One record per emitted call, with the keys of the dictionary built in
  \<^verbatim>\<open>parse_tool_calls\<close> (the key \<^verbatim>\<open>output\<close> is the field \<open>output_text\<close>).
\<close>

record tool_call =
  tool :: string
  args :: pyval
  output_size :: nat
  output_text :: string
  has_data :: bool
  is_error :: bool

text \<open>Lines 63 and 64: both flags read the first 300 characters of the output only.\<close>

definition output_is_error :: "string \<Rightarrow> bool" where
  \<open>output_is_error output_raw =
     (contains ''"error"'' (take 300 output_raw) \<and> contains ''timed out'' (take 300 output_raw))\<close>

definition output_has_data :: "string \<Rightarrow> bool" where
  \<open>output_has_data output_raw =
     (contains ''"data"'' (take 300 output_raw) \<and> \<not> contains ''"error"'' (take 300 output_raw))\<close>

definition make_call :: "string \<Rightarrow> pyval option \<Rightarrow> nat \<Rightarrow> string \<Rightarrow> tool_call" where
  "make_call current_tool current_args sz output_raw =
     \<lparr> tool = current_tool,
       args = (case current_args of
                 Some a \<Rightarrow> if truthy a then a else PDict []
               | None \<Rightarrow> PDict []),
       output_size = sz,
       output_text = output_raw,
       has_data = output_has_data output_raw,
       is_error = output_is_error output_raw \<rparr>"

text \<open>
  The three outcomes of a call. The code keeps the two flags and derives the outcome where
  it reports a call: \<^verbatim>\<open>"DATA" if has_data else ("ERROR/TIMEOUT" if is_error else
  "EMPTY/NO_DATA")\<close> in \<^verbatim>\<open>build_all_calls_summary\<close>, and the same cascade with the
  tags OK, ERR, EMPTY in \<^verbatim>\<open>summarize_tool_trace\<close>.
\<close>

datatype outcome = HAS_DATA | EMPTY_NO_DATA | ERROR_OR_TIMEOUT

definition status_of :: "bool \<Rightarrow> bool \<Rightarrow> outcome" where
  "status_of hd_flag err_flag =
     (if hd_flag then HAS_DATA else (if err_flag then ERROR_OR_TIMEOUT else EMPTY_NO_DATA))"

definition call_outcome :: "tool_call \<Rightarrow> outcome" where
  "call_outcome c = status_of (has_data c) (is_error c)"

subsection \<open>The line scanner\<close>



text \<open>
  \<^verbatim>\<open>re.match(r"\[TELEMETRY\] Output \((\d+) bytes\): (.+)", line)\<close>: the digits, then
  the literal, then a non-empty rest.
\<close>

definition nat_of_digits :: "string \<Rightarrow> nat" where
  "nat_of_digits ds = foldl (\<lambda>n c. 10 * n + (of_char c - 48)) 0 ds"





subsection \<open>The trace string and the dataset a query was routed to\<close>











section \<open>judge.py: the two automatic scores\<close>

text \<open>\<^verbatim>\<open>row.get(k, "").strip().upper()\<close>: only a string has the methods.\<close>

definition strip_upper :: "pyval \<Rightarrow> error + nat list" where
  "strip_upper v = (case v of PStr s \<Rightarrow> Inr (upper (strip s)) | _ \<Rightarrow> Inl AttributeError)"

definition auto_score_routing :: "row \<Rightarrow> error + int" where
  "auto_score_routing r =
     (case strip_upper (dict_get r ''dataset'' (PStr [])) of
        Inl e \<Rightarrow> Inl e
      | Inr expected \<Rightarrow>
         (case strip_upper (dict_get r ''dataset_routed_to'' (PStr [])) of
            Inl e \<Rightarrow> Inl e
          | Inr actual \<Rightarrow>
              if actual = [] then Inr 0
              else Inr (if actual = expected then 1 else 0)))"

text \<open>\<^verbatim>\<open>re.findall(r'(\d)_', trace)\<close>: the matches do not overlap, left to right.\<close>

fun findall_digit_us :: "string \<Rightarrow> char list" where
  "findall_digit_us (c # d # cs) =
     (if is_digit c \<and> d = CHR ''_'' then c # findall_digit_us cs
      else findall_digit_us (d # cs))"
| "findall_digit_us cs = []"

text \<open>Lines 170 to 173: \<open>deduped\<close> is never empty and \<^verbatim>\<open>deduped[-1]\<close> is its last element.\<close>

fun dedup_loop :: "char list \<Rightarrow> char list \<Rightarrow> char list" where
  "dedup_loop deduped [] = deduped"
| "dedup_loop deduped (t # ts) =
     (if t \<noteq> last deduped then dedup_loop (deduped @ [t]) ts else dedup_loop deduped ts)"

definition expected_order :: "char list" where
  "expected_order = ''1234''"

text \<open>Lines 177 to 180: the pointer \<open>idx\<close> into the required order.\<close>

fun match_loop :: "nat \<Rightarrow> char list \<Rightarrow> nat" where
  "match_loop idx [] = idx"
| "match_loop idx (t # ts) =
     (if idx < length expected_order \<and> t = expected_order ! idx
      then match_loop (idx + 1) ts else match_loop idx ts)"

text \<open>Lines 166 to 182, from the extracted tool numbers on.\<close>

definition order_score :: "char list \<Rightarrow> int" where
  "order_score tool_nums =
     (case tool_nums of
        [] \<Rightarrow> 0
      | n # ns \<Rightarrow> (if match_loop 0 (dedup_loop [n] ns) = 4 then 1 else 0))"

definition auto_score_ordering :: "row \<Rightarrow> error + int" where
  "auto_score_ordering r =
     (let trace = dict_get r ''tool_trace'' (PStr []) in
      if \<not> truthy trace then Inr 0
      else (case trace of
              PStr s \<Rightarrow> Inr (order_score (findall_digit_us s))
            | _ \<Rightarrow> Inl TypeError))"


section \<open>Notions of the specification: routing\<close>











section \<open>The total score of a row\<close>

text \<open>
  \<^verbatim>\<open>isinstance(s, int)\<close> holds of an int and of a bool (a bool is an int in Python, worth
  0 or 1); \<open>int_value\<close> is the number such a value stands for.
\<close>

definition is_int :: "pyval \<Rightarrow> bool" where
  "is_int v = (case v of PInt n \<Rightarrow> True | PBool b \<Rightarrow> True | _ \<Rightarrow> False)"

definition int_value :: "pyval \<Rightarrow> int" where
  "int_value v = (case v of PInt n \<Rightarrow> n | PBool b \<Rightarrow> (if b then 1 else 0) | _ \<Rightarrow> 0)"

text \<open>
  judge.py, line 360: \<^verbatim>\<open>sum(s for s in scores if isinstance(s, int) and s > 0)\<close>, where
  \<open>scores\<close> are the six dimension scores of the row.
\<close>

definition judge_total :: "pyval list \<Rightarrow> int" where
  "judge_total scores =
     sum_list (map int_value (filter (\<lambda>s. is_int s \<and> 0 < int_value s) scores))"


section \<open>merge\_results.py: merging into the ledgers\<close>

text \<open>
  \<^verbatim>\<open>int(x)\<close> in base 10. A string is stripped of white space, may carry a sign, and is
  made of digits with single underscores between them; anything else raises ValueError,
  and \<^verbatim>\<open>None\<close>, a list or a dictionary raise TypeError. The white space \<^verbatim>\<open>int\<close> strips
  is not that of \<^verbatim>\<open>str.strip()\<close>: the separators 0x1C to 0x1F are kept, and the
  string is refused. The limit the recent versions of Python put on the number of digits
  is left out.
\<close>

definition is_int_space :: "char \<Rightarrow> bool" where
  "is_int_space c = (c \<in> set [CHR 0x09, CHR 0x0A, CHR 0x0B, CHR 0x0C, CHR 0x0D, CHR 0x20,
                                CHR 0x85, CHR 0xA0])"

definition strip_int :: "string \<Rightarrow> string" where
  "strip_int s = rev (dropWhile is_int_space (rev (dropWhile is_int_space s)))"

fun digits_us :: "string \<Rightarrow> bool" where
  "digits_us [] = False"
| "digits_us [c] = is_digit c"
| "digits_us (c # d # cs) =
     (is_digit c \<and> (if d = CHR ''_'' then digits_us cs else digits_us (d # cs)))"

definition int_of_str :: "string \<Rightarrow> int option" where
  "int_of_str s =
     (let t = strip_int s;
          neg = (case t of c # cs \<Rightarrow> c = CHR ''-'' | [] \<Rightarrow> False);
          body = (case t of c # cs \<Rightarrow> if c = CHR ''-'' \<or> c = CHR ''+'' then cs else t | [] \<Rightarrow> [])
      in if digits_us body
         then Some ((if neg then - 1 else 1) * int (nat_of_digits (filter is_digit body)))
         else None)"

definition py_int :: "pyval \<Rightarrow> error + int" where
  "py_int v =
     (case v of
        PInt n \<Rightarrow> Inr n
      | PBool b \<Rightarrow> Inr (if b then 1 else 0)
      | PStr s \<Rightarrow> (case int_of_str s of Some n \<Rightarrow> Inr n | None \<Rightarrow> Inl ValueError)
      | _ \<Rightarrow> Inl TypeError)"

text \<open>
  The identity key \<^verbatim>\<open>(platform, mode, dataset, int(no))\<close> of a row. The tuple is a key
  of a dictionary, or is looked up in a set: a list or a dictionary inside it raises
  TypeError. A bool in it is the int it equals (\<^verbatim>\<open>True == 1\<close>), so that equality of keys
  is equality of the tuples of the model.
\<close>

type_synonym ident = "pyval \<times> pyval \<times> pyval \<times> int"

definition hashable :: "pyval \<Rightarrow> bool" where
  "hashable v = (case v of PList xs \<Rightarrow> False | PDict d \<Rightarrow> False | _ \<Rightarrow> True)"

definition key_part :: "pyval \<Rightarrow> pyval" where
  "key_part v = (case v of PBool b \<Rightarrow> PInt (if b then 1 else 0) | _ \<Rightarrow> v)"

definition make_key :: "pyval \<Rightarrow> pyval \<Rightarrow> pyval \<Rightarrow> pyval \<Rightarrow> error + ident" where
  "make_key p m d n =
     (case py_int n of
        Inl e \<Rightarrow> Inl e
      | Inr i \<Rightarrow> if hashable p \<and> hashable m \<and> hashable d
                then Inr (key_part p, key_part m, key_part d, i)
                else Inl TypeError)"

text \<open>Line 50 (and line 89): the key of a row of the existing CSV.\<close>

definition existing_key :: "row \<Rightarrow> error + ident" where
  "existing_key r =
     make_key (dict_get r ''platform'' PNone) (dict_get r ''mode'' PNone)
              (dict_get r ''dataset'' PNone) (dict_get r ''no'' (PInt 0))"

text \<open>Lines 43 and 44: the key of an incoming row, with the defaults of the call.\<close>

definition new_key :: "string \<Rightarrow> string \<Rightarrow> row \<Rightarrow> error + ident" where
  "new_key platform mode r =
     make_key (dict_get r ''platform'' (PStr platform)) (dict_get r ''mode'' (PStr mode))
              (dict_get r ''dataset'' PNone) (dict_get r ''no'' (PInt 0))"

text \<open>Lines 41 to 45: \<open>new_lookup\<close>; a later row with the same key replaces an earlier one.\<close>

fun build_lookup ::
  "string \<Rightarrow> string \<Rightarrow> (ident \<times> row) list \<Rightarrow> row list \<Rightarrow> error + (ident \<times> row) list" where
  "build_lookup platform mode new_lookup [] = Inr new_lookup"
| "build_lookup platform mode new_lookup (r # rs) =
     (case new_key platform mode r of
        Inl e \<Rightarrow> Inl e
      | Inr k \<Rightarrow> build_lookup platform mode (dict_set new_lookup k r) rs)"

text \<open>Lines 53 and 54: \<^verbatim>\<open>for k, v in new.items(): existing[k] = v\<close>.\<close>

definition update_fields :: "row \<Rightarrow> row \<Rightarrow> row" where
  "update_fields existing new = foldl (\<lambda>acc (k, v). dict_set acc k v) existing new"

text \<open>Lines 49 to 56: the loop over the existing rows; an exception leaves the loop.\<close>

fun merge_loop :: "(ident \<times> row) list \<Rightarrow> row list \<Rightarrow> error + row list" where
  "merge_loop new_lookup [] = Inr []"
| "merge_loop new_lookup (r # rs) =
     (case existing_key r of
        Inl e \<Rightarrow> Inl e
      | Inr k \<Rightarrow>
         (case merge_loop new_lookup rs of
            Inl e \<Rightarrow> Inl e
          | Inr rs' \<Rightarrow>
              Inr ((case map_of new_lookup k of Some n \<Rightarrow> update_fields r n | None \<Rightarrow> r) # rs')))"

text \<open>
  \<^verbatim>\<open>csv.DictWriter(f, fieldnames).writerows(rows)\<close>: a row with a field that is not a
  column raises ValueError. The result is the rows handed to the writer; the text of the
  file is not modelled.
\<close>

definition writerows :: "string list \<Rightarrow> row list \<Rightarrow> error + row list" where
  "writerows fieldnames rows =
     (if list_all (\<lambda>r. list_all (\<lambda>k. k \<in> set fieldnames) (map fst r)) rows
      then Inr rows else Inl ValueError)"

text \<open>
  \<open>merge_into_benchmark\<close>, from the rows and the columns read from the CSV to the rows
  written back.
\<close>

definition merge_into_benchmark ::
  "string list \<Rightarrow> row list \<Rightarrow> row list \<Rightarrow> string \<Rightarrow> string \<Rightarrow> error + row list" where
  "merge_into_benchmark fieldnames existing_rows new_rows platform mode =
     (case build_lookup platform mode [] new_rows of
        Inl e \<Rightarrow> Inl e
      | Inr new_lookup \<Rightarrow>
         (case merge_loop new_lookup existing_rows of
            Inl e \<Rightarrow> Inl e
          | Inr rows \<Rightarrow> writerows fieldnames rows))"

text \<open>Lines 93 to 98 of \<open>merge_into_judge\<close>: the fields cleared for re-judging.\<close>

definition judge_fields :: "string list" where
  "judge_fields =
     [''score_filter_accuracy'', ''score_data_retrieval'', ''score_response_quality'',
      ''score_behavior'', ''filter_notes'', ''data_notes'', ''response_notes'',
      ''behavior_notes'', ''total_score'', ''judge_reasoning'']"

fun clear_fields :: "string list \<Rightarrow> row \<Rightarrow> row" where
  "clear_fields [] r = r"
| "clear_fields (field # fs) r =
     clear_fields fs (if dict_has r field then dict_set r field (PStr []) else r)"

fun judge_loop :: "ident list \<Rightarrow> bool \<Rightarrow> row list \<Rightarrow> error + row list" where
  "judge_loop updated_queries rejudge [] = Inr []"
| "judge_loop updated_queries rejudge (r # rs) =
     (case existing_key r of
        Inl e \<Rightarrow> Inl e
      | Inr k \<Rightarrow>
         (case judge_loop updated_queries rejudge rs of
            Inl e \<Rightarrow> Inl e
          | Inr rs' \<Rightarrow>
              Inr ((if k \<in> set updated_queries \<and> rejudge then clear_fields judge_fields r else r)
                   # rs')))"

text \<open>
  \<open>merge_into_judge\<close>: the judge CSV is \<open>None\<close> when the file does not exist, and then
  nothing is written. The updated queries are the set built in \<open>main\<close> (lines 146 to 150),
  so that \<^verbatim>\<open>key in updated_queries\<close> hashes the key.
\<close>

definition merge_into_judge ::
  "(string list \<times> row list) option \<Rightarrow> ident list \<Rightarrow> bool \<Rightarrow> error + row list option" where
  "merge_into_judge judge_csv updated_queries rejudge =
     (case judge_csv of
        None \<Rightarrow> Inr None
      | Some (fieldnames, existing_rows) \<Rightarrow>
         (case judge_loop updated_queries rejudge existing_rows of
            Inl e \<Rightarrow> Inl e
          | Inr rows \<Rightarrow>
             (case writerows fieldnames rows of Inl e \<Rightarrow> Inl e | Inr out \<Rightarrow> Inr (Some out))))"

section \<open>Notions of the specification: the identity key and the update set\<close>

text \<open>
  The identity key of a row according to the specification: its platform, its mode and
  its dataset, and its \<^verbatim>\<open>no\<close> read as an integer (0 when the row has none); \<open>None\<close>
  when \<^verbatim>\<open>no\<close> is not an integer. \<open>p\<close> and \<open>m\<close> stand in for a platform and a mode the
  row does not have.
\<close>

definition identity :: "pyval \<Rightarrow> pyval \<Rightarrow> row \<Rightarrow> ident option" where
  "identity p m r =
     (case py_int (dict_get r ''no'' (PInt 0)) of
        Inl e \<Rightarrow> None
      | Inr no \<Rightarrow> Some (key_part (dict_get r ''platform'' p), key_part (dict_get r ''mode'' m),
                         key_part (dict_get r ''dataset'' PNone), no))"

text \<open>The incoming row for a key: the last of the new rows with that key, if any.\<close>

fun incoming :: "string \<Rightarrow> string \<Rightarrow> row list \<Rightarrow> ident \<Rightarrow> row option" where
  "incoming platform mode [] k = None"
| "incoming platform mode (n # ns) k =
     (case incoming platform mode ns k of
        Some x \<Rightarrow> Some x
      | None \<Rightarrow> if identity (PStr platform) (PStr mode) n = Some k then Some n else None)"

text \<open>
  A ledger of five rows, and the rows of a re-run. The first row of the re-run updates
  query 1 of CPI on claude in mode single (its platform and mode are the defaults of the
  call); the other rows of the ledger differ from that one in \<^verbatim>\<open>no\<close>, in the dataset,
  in the platform or in the mode. The second row of the re-run has a key no row of the
  ledger has.
\<close>

definition ledger_columns :: "string list" where
  "ledger_columns = [''platform'', ''mode'', ''dataset'', ''no'', ''status'', ''query'']"

definition ledger_rows :: "row list" where
  "ledger_rows =
     [[(''platform'', PStr ''claude''), (''mode'', PStr ''single''), (''dataset'', PStr ''CPI''),
       (''no'', PStr ''1''), (''status'', PStr ''timeout''), (''query'', PStr ''q1'')],
      [(''platform'', PStr ''claude''), (''mode'', PStr ''single''), (''dataset'', PStr ''CPI''),
       (''no'', PStr ''2''), (''status'', PStr ''timeout''), (''query'', PStr ''q2'')],
      [(''platform'', PStr ''claude''), (''mode'', PStr ''single''), (''dataset'', PStr ''PLFS''),
       (''no'', PStr ''1''), (''status'', PStr ''timeout''), (''query'', PStr ''q3'')],
      [(''platform'', PStr ''chatgpt''), (''mode'', PStr ''single''), (''dataset'', PStr ''CPI''),
       (''no'', PStr ''1''), (''status'', PStr ''timeout''), (''query'', PStr ''q4'')],
      [(''platform'', PStr ''claude''), (''mode'', PStr ''multi''), (''dataset'', PStr ''CPI''),
       (''no'', PStr ''1''), (''status'', PStr ''timeout''), (''query'', PStr ''q5'')]]"

definition rerun_rows :: "row list" where
  "rerun_rows =
     [[(''dataset'', PStr ''CPI''), (''no'', PInt 1), (''status'', PStr ''ok'')],
      [(''platform'', PStr ''claude''), (''mode'', PStr ''single''), (''dataset'', PStr ''ASI''),
       (''no'', PInt 7), (''status'', PStr ''ok'')]]"

definition merged_ledger :: "row list" where
  "merged_ledger =
     [[(''platform'', PStr ''claude''), (''mode'', PStr ''single''), (''dataset'', PStr ''CPI''),
       (''no'', PInt 1), (''status'', PStr ''ok''), (''query'', PStr ''q1'')],
      ledger_rows ! 1, ledger_rows ! 2, ledger_rows ! 3, ledger_rows ! 4]"

text \<open>
  A judge ledger of five rows, which differ as those of the ledger above; the update set
  holds the key of the first. In the ledger written back only the first row has changed:
  its two judge fields are empty, its evidence and its two automatic scores are as
  before.
\<close>

definition judged_columns :: "string list" where
  "judged_columns = [''platform'', ''mode'', ''dataset'', ''no'', ''tool_trace'',
                     ''score_routing'', ''score_ordering'', ''score_behavior'', ''total_score'']"

definition judged_rows :: "row list" where
  "judged_rows =
     [[(''platform'', PStr ''claude''), (''mode'', PStr ''single''), (''dataset'', PStr ''CPI''),
       (''no'', PStr ''1''), (''tool_trace'', PStr ''1_know''), (''score_routing'', PStr ''1''),
       (''score_ordering'', PStr ''0''), (''score_behavior'', PStr ''0''),
       (''total_score'', PStr ''1'')],
      [(''platform'', PStr ''claude''), (''mode'', PStr ''single''), (''dataset'', PStr ''CPI''),
       (''no'', PStr ''2''), (''tool_trace'', PStr ''1_know''), (''score_routing'', PStr ''1''),
       (''score_ordering'', PStr ''0''), (''score_behavior'', PStr ''1''),
       (''total_score'', PStr ''2'')],
      [(''platform'', PStr ''claude''), (''mode'', PStr ''single''), (''dataset'', PStr ''PLFS''),
       (''no'', PStr ''1''), (''tool_trace'', PStr ''1_know''), (''score_routing'', PStr ''1''),
       (''score_ordering'', PStr ''0''), (''score_behavior'', PStr ''1''),
       (''total_score'', PStr ''2'')],
      [(''platform'', PStr ''chatgpt''), (''mode'', PStr ''single''), (''dataset'', PStr ''CPI''),
       (''no'', PStr ''1''), (''tool_trace'', PStr ''1_know''), (''score_routing'', PStr ''1''),
       (''score_ordering'', PStr ''0''), (''score_behavior'', PStr ''1''),
       (''total_score'', PStr ''2'')],
      [(''platform'', PStr ''claude''), (''mode'', PStr ''multi''), (''dataset'', PStr ''CPI''),
       (''no'', PStr ''1''), (''tool_trace'', PStr ''1_know''), (''score_routing'', PStr ''1''),
       (''score_ordering'', PStr ''0''), (''score_behavior'', PStr ''1''),
       (''total_score'', PStr ''2'')]]"

definition updated_keys :: "ident list" where
  "updated_keys = [(PStr ''claude'', PStr ''single'', PStr ''CPI'', 1)]"

definition rejudged_ledger :: "row list" where
  "rejudged_ledger =
     [[(''platform'', PStr ''claude''), (''mode'', PStr ''single''), (''dataset'', PStr ''CPI''),
       (''no'', PStr ''1''), (''tool_trace'', PStr ''1_know''), (''score_routing'', PStr ''1''),
       (''score_ordering'', PStr ''0''), (''score_behavior'', PStr []),
       (''total_score'', PStr [])],
      judged_rows ! 1, judged_rows ! 2, judged_rows ! 3, judged_rows ! 4]"

section \<open>judge.py: a judging run\<close>

text \<open>
  \<^verbatim>\<open>x[:n]\<close>: a string or a list is cut; any other value raises TypeError (for a
  dictionary it is KeyError from Python 3.12 on, where a slice can be hashed).
\<close>

definition py_take :: "nat \<Rightarrow> pyval \<Rightarrow> error + pyval" where
  "py_take n v =
     (case v of
        PStr s \<Rightarrow> Inr (PStr (take n s))
      | PList xs \<Rightarrow> Inr (PList (take n xs))
      | _ \<Rightarrow> Inl TypeError)"

text \<open>\<^verbatim>\<open>x.replace("\n", " ")\<close>: only a string has the method.\<close>

definition replace_newlines :: "pyval \<Rightarrow> error + pyval" where
  "replace_newlines v =
     (case v of
        PStr s \<Rightarrow> Inr (PStr (map (\<lambda>c. if c = CHR 0x0A then CHR '' '' else c) s))
      | _ \<Rightarrow> Inl AttributeError)"

text \<open>
  Lines 377 to 382 print the start of the reasoning; nothing is kept of it but the
  exception it may raise.
\<close>

definition print_reasoning :: "pyval \<Rightarrow> error option" where
  "print_reasoning reasoning =
     (if truthy reasoning
      then (case py_take 200 reasoning of
              Inl e \<Rightarrow> Some e
            | Inr short \<Rightarrow> (case replace_newlines short of Inl e \<Rightarrow> Some e | Inr s \<Rightarrow> None))
      else None)"

text \<open>Lines 302 to 307: the columns the judge adds to those of the benchmark CSV.\<close>

definition judge_columns :: "string list" where
  "judge_columns =
     [''score_routing'', ''score_ordering'', ''score_filter_accuracy'', ''filter_notes'',
      ''score_data_retrieval'', ''data_notes'', ''score_response_quality'', ''response_notes'',
      ''score_behavior'', ''behavior_notes'', ''total_score'', ''judge_reasoning'']"

text \<open>
  Lines 326 to 400, the body of the loop up to the output row. \<open>call_judge\<close> is the call
  of the model that judges; it returns a dictionary, or raises what
  \<^verbatim>\<open>build_all_calls_summary\<close> raises.
\<close>

definition judge_row :: "(row \<Rightarrow> error + row) \<Rightarrow> row \<Rightarrow> error + row" where
  "judge_row call_judge row =
     (case py_take 60 (dict_get row ''query'' (PStr [])) of
        Inl e \<Rightarrow> Inl e
      | Inr query \<Rightarrow>
     (case auto_score_routing row of
        Inl e \<Rightarrow> Inl e
      | Inr score_routing \<Rightarrow>
     (case auto_score_ordering row of
        Inl e \<Rightarrow> Inl e
      | Inr score_ordering \<Rightarrow>
     (case call_judge row of
        Inl e \<Rightarrow> Inl e
      | Inr judge_result \<Rightarrow>
         (let err = dict_has judge_result ''error'';
              score_filter = (if err then PStr ''ERR''
                              else dict_get judge_result ''filter_accuracy'' (PStr ''ERR''));
              score_data = (if err then PStr ''ERR''
                            else dict_get judge_result ''data_retrieval'' (PStr ''ERR''));
              score_response = (if err then PStr ''ERR''
                                else dict_get judge_result ''response_quality'' (PStr ''ERR''));
              score_behavior = (if err then PStr ''ERR''
                                else dict_get judge_result ''behavior_compliance'' (PStr ''ERR''));
              filter_notes = (if err then dict_get judge_result ''error'' (PStr [])
                              else dict_get judge_result ''filter_notes'' (PStr []));
              data_notes = (if err then PStr []
                            else dict_get judge_result ''data_notes'' (PStr []));
              response_notes = (if err then PStr []
                                else dict_get judge_result ''response_notes'' (PStr []));
              behavior_notes = (if err then PStr []
                                else dict_get judge_result ''behavior_notes'' (PStr []));
              total = judge_total [PInt score_routing, PInt score_ordering, score_filter,
                                   score_data, score_response, score_behavior];
              reasoning = (if err then PStr []
                           else dict_get judge_result ''judge_reasoning'' (PStr []))
          in (case print_reasoning reasoning of
                Some e \<Rightarrow> Inl e
              | None \<Rightarrow>
                 (case replace_newlines reasoning of
                    Inl e \<Rightarrow> Inl e
                  | Inr flat \<Rightarrow>
                     Inr (update_fields row
                            [(''score_routing'', PInt score_routing),
                             (''score_ordering'', PInt score_ordering),
                             (''score_filter_accuracy'',
                                if score_filter = PInt (- 1) then PStr ''N/A'' else score_filter),
                             (''filter_notes'', filter_notes),
                             (''score_data_retrieval'', score_data),
                             (''data_notes'', data_notes),
                             (''score_response_quality'', score_response),
                             (''response_notes'', response_notes),
                             (''score_behavior'', score_behavior),
                             (''behavior_notes'', behavior_notes),
                             (''total_score'', PInt total),
                             (''judge_reasoning'', flat)]))))))))"

text \<open>
  What a run leaves behind: the rows of its last write to \<^verbatim>\<open>judge_results.csv\<close>
  (\<open>None\<close> when it did not write to the file, which then is as it was), and the exception
  that ended it, if any. The file is the rows handed to \<^verbatim>\<open>csv.DictWriter\<close>; their
  text is not modelled. A write that raises leaves the rows before the one refused.
\<close>

record run_result =
  written :: "row list option"
  raised :: "error option"

definition written_rows :: "string list \<Rightarrow> row list \<Rightarrow> row list" where
  "written_rows fieldnames rows =
     takeWhile (\<lambda>r. list_all (\<lambda>k. k \<in> set fieldnames) (map fst r)) rows"

text \<open>Lines 321 to 410: the loop over the rows of the benchmark CSV, from \<open>row_num\<close> on.\<close>

fun judge_rows ::
  "(row \<Rightarrow> error + row) \<Rightarrow> string list \<Rightarrow> int \<Rightarrow> int \<Rightarrow> row list \<Rightarrow> row list
     \<Rightarrow> row list option \<Rightarrow> run_result" where
  "judge_rows call_judge out_fields start row_num [] results kept =
     \<lparr> written = kept, raised = None \<rparr>"
| "judge_rows call_judge out_fields start row_num (row # rows) results kept =
     (if row_num < start
      then judge_rows call_judge out_fields start (row_num + 1) rows results kept
      else (case judge_row call_judge row of
              Inl e \<Rightarrow> \<lparr> written = kept, raised = Some e \<rparr>
            | Inr out_row \<Rightarrow>
               (case writerows out_fields (results @ [out_row]) of
                  Inl e \<Rightarrow> \<lparr> written = Some (written_rows out_fields (results @ [out_row])),
                              raised = Some e \<rparr>
                | Inr saved \<Rightarrow>
                    judge_rows call_judge out_fields start (row_num + 1) rows
                      (results @ [out_row]) (Some saved))))"

text \<open>
  Lines 300 to 410 of \<open>main\<close>. \<open>rows\<close> are the rows of the benchmark CSV, \<open>start\<close> is
  \<^verbatim>\<open>args.start\<close>, and \<open>out_file\<close> the rows of \<^verbatim>\<open>judge_results.csv\<close>, \<open>None\<close> when the
  file does not exist. The summary after the loop prints and writes nothing.
\<close>

definition judge_main ::
  "(row \<Rightarrow> error + row) \<Rightarrow> row list \<Rightarrow> int \<Rightarrow> row list option \<Rightarrow> run_result" where
  "judge_main call_judge rows start out_file =
     (case rows of
        [] \<Rightarrow> \<lparr> written = None, raised = Some IndexError \<rparr>
      | first_row # rest \<Rightarrow>
         (let out_fields = map fst first_row @ judge_columns;
              existing = (if 1 < start then (case out_file of Some ex \<Rightarrow> ex | None \<Rightarrow> [])
                          else [])
          in judge_rows call_judge out_fields start 1 rows existing None))"

section \<open>Notions of the specification: a resumed run\<close>

text \<open>
  The rows a run judges, those from row \<open>start\<close> on, and the output row of each (for a row
  whose judging raises nothing).
\<close>

definition rows_from :: "int \<Rightarrow> row list \<Rightarrow> row list" where
  "rows_from start rows = drop (nat (start - 1)) rows"

definition judged :: "(row \<Rightarrow> error + row) \<Rightarrow> row \<Rightarrow> row" where
  "judged call_judge row = (case judge_row call_judge row of Inr out_row \<Rightarrow> out_row | Inl e \<Rightarrow> row)"

text \<open>
  Three queries, the judged rows of the first two, and a judge that gives every row the
  same result.
\<close>

definition bench_rows :: "row list" where
  "bench_rows =
     [[(''dataset'', PStr ''CPI''), (''no'', PStr ''1''), (''query'', PStr ''q1''),
       (''dataset_routed_to'', PStr ''CPI''), (''tool_trace'', PStr ''1_know'')],
      [(''dataset'', PStr ''CPI''), (''no'', PStr ''2''), (''query'', PStr ''q2''),
       (''dataset_routed_to'', PStr ''CPI''), (''tool_trace'', PStr ''1_know'')],
      [(''dataset'', PStr ''CPI''), (''no'', PStr ''3''), (''query'', PStr ''q3''),
       (''dataset_routed_to'', PStr ''cpi''), (''tool_trace'', PStr ''1_know -> 4_data'')]]"

definition fixed_judge :: "row \<Rightarrow> error + row" where
  "fixed_judge row =
     Inr [(''filter_accuracy'', PInt (- 1)), (''filter_notes'', PStr ''n''),
          (''data_retrieval'', PInt 1), (''data_notes'', PStr ''n''),
          (''response_quality'', PInt 1), (''response_notes'', PStr ''n''),
          (''behavior_compliance'', PInt 0), (''behavior_notes'', PStr ''n''),
          (''judge_reasoning'', PStr ''r'')]"

definition earlier_results :: "row list" where
  "earlier_results =
     [[(''dataset'', PStr ''CPI''), (''no'', PStr ''1''), (''query'', PStr ''q1''),
       (''dataset_routed_to'', PStr ''CPI''), (''tool_trace'', PStr ''1_know''),
       (''score_routing'', PStr ''1''), (''total_score'', PStr ''3'')],
      [(''dataset'', PStr ''CPI''), (''no'', PStr ''2''), (''query'', PStr ''q2''),
       (''dataset_routed_to'', PStr ''CPI''), (''tool_trace'', PStr ''1_know''),
       (''score_routing'', PStr ''1''), (''total_score'', PStr ''2'')]]"


section \<open>Properties\<close>

subsection \<open>Dictionaries\<close>

lemma map_of_dict_set: "map_of (dict_set d k v) = (map_of d)(k \<mapsto> v)"
  by (induction d) (auto simp: fun_eq_iff)

lemma dict_get_dict_set_same: "dict_get (dict_set d k v) k dflt = v"
  by (simp add: dict_get_def map_of_dict_set)


subsection \<open>Outcome of a call\<close>

lemma status_of_flags:
  \<open>status_of (output_has_data out) (output_is_error out) =
     (if contains ''"error"'' (take 300 out) \<and> contains ''timed out'' (take 300 out)
      then ERROR_OR_TIMEOUT
      else if contains ''"data"'' (take 300 out) \<and> \<not> contains ''"error"'' (take 300 out)
      then HAS_DATA else EMPTY_NO_DATA)\<close>
  by (simp add: status_of_def output_has_data_def output_is_error_def)

text \<open>
  Claim C1. The outcome of the call emitted for an output line is determined by the first
  300 characters of the output text: ERROR\_OR\_TIMEOUT when that prefix holds both
  \<^verbatim>\<open>"error"\<close> and \<^verbatim>\<open>timed out\<close>; otherwise HAS\_DATA when it holds \<^verbatim>\<open>"data"\<close>
  and not \<^verbatim>\<open>"error"\<close>; otherwise EMPTY\_NO\_DATA. Whatever follows the prefix, a
  later \<^verbatim>\<open>"data"\<close> token included, plays no part.
\<close>

theorem outcome_classification:
  \<open>call_outcome (make_call t a n out) =
     (if contains ''"error"'' (take 300 out) \<and> contains ''timed out'' (take 300 out)
      then ERROR_OR_TIMEOUT
      else if contains ''"data"'' (take 300 out) \<and> \<not> contains ''"error"'' (take 300 out)
      then HAS_DATA else EMPTY_NO_DATA)\<close>
  by (simp add: call_outcome_def make_call_def status_of_flags)

subsection \<open>The order verifier\<close>

lemma dedup_loop_remdups_adj:
  "acc \<noteq> [] \<Longrightarrow> dedup_loop acc ts = butlast acc @ remdups_adj (last acc # ts)"
proof (induction ts arbitrary: acc)
  case Nil
  then show ?case by simp
next
  case (Cons t ts)
  then show ?case by (simp add: butlast_append)
qed

lemma dedup_is_remdups_adj: "dedup_loop [n] ns = remdups_adj (n # ns)"
  by (simp add: dedup_loop_remdups_adj)

lemma length_expected_order: "length expected_order = 4"
  by (simp add: expected_order_def)

lemma match_loop_ge4: "4 \<le> idx \<Longrightarrow> match_loop idx ts = idx"
  by (induction ts arbitrary: idx) (simp_all add: length_expected_order)

lemma match_loop_subseq:
  "idx \<le> 4 \<Longrightarrow> (match_loop idx ts = 4) = subseq (drop idx expected_order) ts"
proof (induction ts arbitrary: idx)
  case Nil
  with length_expected_order show ?case by (auto dest: list_emb_Nil2)
next
  case (Cons t ts)
  show ?case
  proof (cases "idx < 4")
    case False
    with Cons.prems have "idx = 4" by simp
    then show ?thesis by (simp add: match_loop_ge4 length_expected_order)
  next
    case True
    then have d: "drop idx expected_order = expected_order ! idx # drop (Suc idx) expected_order"
      by (simp add: Cons_nth_drop_Suc length_expected_order)
    from True have l: "idx < length expected_order" by (simp add: length_expected_order)
    show ?thesis
    proof (cases "t = expected_order ! idx")
      case True
      with l d Cons.IH[of "Suc idx"] \<open>idx < 4\<close> show ?thesis by simp
    next
      case False
      with l d Cons.IH[of idx] \<open>idx < 4\<close> show ?thesis by (simp add: subseq_Cons2_neq)
    qed
  qed
qed

lemma order_score_remdups_adj:
  "order_score nums = (if match_loop 0 (remdups_adj nums) = 4 then 1 else 0)"
  by (cases nums) (simp_all add: order_score_def dedup_is_remdups_adj)

lemma order_score_subseq:
  "order_score nums = (if subseq ''1234'' (remdups_adj nums) then 1 else 0)"
proof -
  have "(match_loop 0 (remdups_adj nums) = 4) = subseq (drop 0 expected_order) (remdups_adj nums)"
    by (rule match_loop_subseq) simp
  then show ?thesis
    by (simp add: order_score_remdups_adj expected_order_def)
qed

lemma auto_score_ordering_trace:
  "auto_score_ordering (dict_set r ''tool_trace'' (PStr s)) = Inr (order_score (findall_digit_us s))"
  by (cases s) (simp_all add: auto_score_ordering_def dict_get_dict_set_same order_score_def)

text \<open>
  Claim C2. The order verifier scores 1 (PASS) exactly when 1,2,3,4 is a subsequence of
  the tool numbers with consecutive duplicates collapsed, and 0 (FAIL) otherwise; this is
  what the pointer walk of the code decides, on the numbers themselves and on a row whose
  trace string yields them. The collapsed sequence 2,1,3,4 fails, 1,1,2,3,3,3,4 passes
  and the empty sequence fails.
\<close>

theorem order_verifier_subsequence:
  "order_score nums = (if subseq ''1234'' (remdups_adj nums) then 1 else 0)
   \<and> auto_score_ordering (dict_set r ''tool_trace'' (PStr s)) =
       Inr (if subseq ''1234'' (remdups_adj (findall_digit_us s)) then 1 else 0)
   \<and> order_score ''2134'' = 0
   \<and> order_score ''1123334'' = 1
   \<and> order_score [] = 0"
proof -
  have "order_score ''2134'' = 0" by (simp add: order_score_def expected_order_def)
  moreover have "order_score ''1123334'' = 1" by (simp add: order_score_def expected_order_def)
  moreover have "order_score [] = 0" by (simp add: order_score_def)
  ultimately show ?thesis
    by (simp only: auto_score_ordering_trace order_score_subseq simp_thms)
qed

lemma dropWhile_replicate_same:
  "dropWhile (\<lambda>x. x = a) (replicate k a @ zs) = dropWhile (\<lambda>x. x = a) zs"
  by (induction k) simp_all

lemma remdups_adj_insert_retries:
  "remdups_adj (xs @ replicate k a @ a # ys) = remdups_adj (xs @ a # ys)"
proof (cases k)
  case 0
  then show ?thesis by simp
next
  case (Suc j)
  have "remdups_adj (xs @ a # (replicate j a @ a # ys)) =
        remdups_adj (xs @ [a]) @ remdups_adj (dropWhile (\<lambda>x. x = a) (replicate j a @ a # ys))"
    by (rule remdups_adj_append_dropWhile)
  also have "\<dots> = remdups_adj (xs @ [a]) @ remdups_adj (dropWhile (\<lambda>x. x = a) ys)"
    by (simp add: dropWhile_replicate_same)
  also have "\<dots> = remdups_adj (xs @ a # ys)"
    by (rule remdups_adj_append_dropWhile[symmetric])
  finally show ?thesis using Suc by simp
qed

text \<open>
  Claim C6. Inserting any number \<open>k\<close> of further copies of a tool number \<open>a\<close> next
  to an occurrence of \<open>a\<close>, anywhere in the sequence of tool numbers, does not change
  the score of the order verifier.
\<close>

theorem retry_invariance:
  "order_score (xs @ replicate k a @ a # ys) = order_score (xs @ a # ys)"
  by (simp only: order_score_remdups_adj remdups_adj_insert_retries)


subsection \<open>The routing verifier\<close>













subsection \<open>The total score of a row\<close>





subsection \<open>Merging\<close>

lemma make_key_identity:
  "make_key (dict_get r ''platform'' p) (dict_get r ''mode'' m) (dict_get r ''dataset'' PNone)
     (dict_get r ''no'' (PInt 0)) = Inr k \<Longrightarrow> identity p m r = Some k"
  by (auto simp: make_key_def identity_def split: sum.splits if_splits)

lemma existing_key_identity: "existing_key r = Inr k \<Longrightarrow> identity PNone PNone r = Some k"
  unfolding existing_key_def by (rule make_key_identity)

lemma new_key_identity:
  "new_key platform mode r = Inr k \<Longrightarrow> identity (PStr platform) (PStr mode) r = Some k"
  unfolding new_key_def by (rule make_key_identity)

lemma build_lookup_map_of:
  "build_lookup p m lk new = Inr lk' \<Longrightarrow>
   map_of lk' k = (case incoming p m new k of Some n \<Rightarrow> Some n | None \<Rightarrow> map_of lk k)"
proof (induction new arbitrary: lk)
  case Nil
  then show ?case by simp
next
  case (Cons n ns)
  from Cons.prems obtain kn where kn: "new_key p m n = Inr kn"
    and b: "build_lookup p m (dict_set lk kn n) ns = Inr lk'"
    by (auto split: sum.splits)
  from new_key_identity[OF kn] have idn: "identity (PStr p) (PStr m) n = Some kn" .
  from Cons.IH[OF b]
  have "map_of lk' k = (case incoming p m ns k of Some x \<Rightarrow> Some x
                        | None \<Rightarrow> map_of (dict_set lk kn n) k)" .
  then show ?case using idn
    by (auto simp: map_of_dict_set split: option.splits)
qed

lemma build_lookup_total:
  "\<forall>n \<in> set new. \<not> isl (new_key p m n) \<Longrightarrow> \<exists>lk'. build_lookup p m lk new = Inr lk'"
proof (induction new arbitrary: lk)
  case Nil
  then show ?case by simp
next
  case (Cons n ns)
  then obtain kn where "new_key p m n = Inr kn" by (cases "new_key p m n") auto
  with Cons show ?case by simp
qed

lemma map_of_update_fields:
  "map_of (update_fields r n) = map_of r ++ map_of (rev n)"
  unfolding update_fields_def
proof (induction n arbitrary: r)
  case Nil
  then show ?case by simp
next
  case (Cons kv n)
  obtain k v where kv: "kv = (k, v)" by (cases kv)
  show ?case
    by (simp add: kv Cons.IH map_of_dict_set fun_eq_iff map_add_def split: option.splits)
qed

lemma map_of_rev_distinct: "distinct (map fst n) \<Longrightarrow> map_of (rev n) = map_of n"
  by (rule ext) (metis distinct_rev map_of_eq_Some_iff map_of_eq_None_iff not_Some_eq
      rev_map set_rev)

lemma merge_loop_all2:
  "merge_loop lk ex = Inr out \<Longrightarrow>
   list_all2 (\<lambda>r r'. \<exists>k. existing_key r = Inr k \<and>
                r' = (case map_of lk k of Some n \<Rightarrow> update_fields r n | None \<Rightarrow> r)) ex out"
proof (induction ex arbitrary: out)
  case Nil
  then show ?case by simp
next
  case (Cons r rs)
  then show ?case by (auto split: sum.splits)
qed

lemma merge_loop_total:
  "\<forall>r \<in> set ex. \<not> isl (existing_key r) \<Longrightarrow> \<exists>out. merge_loop lk ex = Inr out"
proof (induction ex)
  case Nil
  then show ?case by simp
next
  case (Cons r rs)
  then obtain k where "existing_key r = Inr k" by (cases "existing_key r") auto
  with Cons show ?case by auto
qed

lemma fields_update_fields:
  "set (map fst (update_fields r n)) = set (map fst r) \<union> set (map fst n)"
proof -
  have "dom (map_of (update_fields r n)) = dom (map_of r) \<union> dom (map_of n)"
    by (simp add: map_of_update_fields dom_map_of_conv_image_fst Un_commute)
  then show ?thesis by (simp add: dom_map_of_conv_image_fst)
qed

lemma incoming_Some:
  "incoming p m new k = Some n \<Longrightarrow> n \<in> set new \<and> identity (PStr p) (PStr m) n = Some k"
  by (induction new) (auto split: option.splits if_splits)

lemma writerows_ok:
  "\<forall>r \<in> set rows. set (map fst r) \<subseteq> set fieldnames \<Longrightarrow> writerows fieldnames rows = Inr rows"
  by (auto simp: writerows_def list_all_iff)

text \<open>
  Claim C3. Let every row of the ledger and every incoming row have an identity key (its
  \<^verbatim>\<open>no\<close> is an integer) and only fields that are columns of the ledger. Then the merge
  writes as many rows as the ledger had, in the same order; a row whose identity (its
  platform, mode, dataset and \<^verbatim>\<open>no\<close>) is the identity of an incoming row takes every
  field of the (last such) incoming row and keeps its other fields; a row whose identity
  is that of no incoming row is unchanged. An incoming row whose identity no row has adds
  nothing. In the ledger of five rows the re-run changes the first row alone: the rows
  that differ from it in \<^verbatim>\<open>no\<close>, dataset, platform or mode are as before, and the row
  of the re-run for a query the ledger does not have is not added.
\<close>

theorem merge_into_benchmark_frame:
  assumes ex: "\<forall>r \<in> set existing_rows.
                 \<not> isl (existing_key r) \<and> set (map fst r) \<subseteq> set fieldnames"
      and nw: "\<forall>n \<in> set new_rows.
                 \<not> isl (new_key platform mode n) \<and> distinct (map fst n)
                 \<and> set (map fst n) \<subseteq> set fieldnames"
  shows "(\<exists>out. merge_into_benchmark fieldnames existing_rows new_rows platform mode = Inr out
           \<and> length out = length existing_rows
           \<and> (\<forall>i < length existing_rows.
                \<exists>k. identity PNone PNone (existing_rows ! i) = Some k \<and>
                (case incoming platform mode new_rows k of
                   None \<Rightarrow> out ! i = existing_rows ! i
                 | Some n \<Rightarrow> n \<in> set new_rows \<and> identity (PStr platform) (PStr mode) n = Some k \<and>
                     (\<forall>f. map_of (out ! i) f =
                           (case map_of n f of Some v \<Rightarrow> Some v
                            | None \<Rightarrow> map_of (existing_rows ! i) f)))))
         \<and> merge_into_benchmark ledger_columns ledger_rows rerun_rows ''claude'' ''single''
             = Inr merged_ledger"
proof -
  from nw have "\<forall>n \<in> set new_rows. \<not> isl (new_key platform mode n)" by blast
  from build_lookup_total[OF this]
  obtain lk where lk: "build_lookup platform mode [] new_rows = Inr lk" by blast
  have lkmap: "map_of lk k = incoming platform mode new_rows k" for k
    using build_lookup_map_of[OF lk, of k] by (simp split: option.splits)
  from ex have "\<forall>r \<in> set existing_rows. \<not> isl (existing_key r)" by blast
  from merge_loop_total[OF this]
  obtain rows where rows: "merge_loop lk existing_rows = Inr rows" by blast
  note a2 = merge_loop_all2[OF rows]
  then have len: "length rows = length existing_rows" by (simp add: list_all2_lengthD)
  have nth: "\<exists>k. existing_key (existing_rows ! i) = Inr k \<and>
               rows ! i = (case incoming platform mode new_rows k of
                             Some n \<Rightarrow> update_fields (existing_rows ! i) n
                           | None \<Rightarrow> existing_rows ! i)"
    if "i < length existing_rows" for i
    using list_all2_nthD[OF a2 that] by (simp add: lkmap)
  have fields: "set (map fst r') \<subseteq> set fieldnames" if "r' \<in> set rows" for r'
  proof -
    from that obtain i where i: "i < length rows" "r' = rows ! i" by (auto simp: in_set_conv_nth)
    with len have il: "i < length existing_rows" by simp
    from nth[OF il] obtain k where k: "rows ! i =
        (case incoming platform mode new_rows k of
           Some n \<Rightarrow> update_fields (existing_rows ! i) n | None \<Rightarrow> existing_rows ! i)" by blast
    from il ex have e: "set (map fst (existing_rows ! i)) \<subseteq> set fieldnames" by simp
    show ?thesis
    proof (cases "incoming platform mode new_rows k")
      case None
      with k e i show ?thesis by simp
    next
      case (Some n)
      with incoming_Some have "n \<in> set new_rows" by blast
      with nw have "set (map fst n) \<subseteq> set fieldnames" by blast
      with e k Some i show ?thesis
        using fields_update_fields[of "existing_rows ! i" n] by auto
    qed
  qed
  then have w: "writerows fieldnames rows = Inr rows" by (simp add: writerows_ok)
  have m: "merge_into_benchmark fieldnames existing_rows new_rows platform mode = Inr rows"
    by (simp add: merge_into_benchmark_def lk rows w)
  have frame: "\<exists>k. identity PNone PNone (existing_rows ! i) = Some k \<and>
                (case incoming platform mode new_rows k of
                   None \<Rightarrow> rows ! i = existing_rows ! i
                 | Some n \<Rightarrow> n \<in> set new_rows \<and> identity (PStr platform) (PStr mode) n = Some k \<and>
                     (\<forall>f. map_of (rows ! i) f =
                           (case map_of n f of Some v \<Rightarrow> Some v
                            | None \<Rightarrow> map_of (existing_rows ! i) f)))"
    if il: "i < length existing_rows" for i
  proof -
    from nth[OF il] obtain k where k: "existing_key (existing_rows ! i) = Inr k"
      and r: "rows ! i = (case incoming platform mode new_rows k of
           Some n \<Rightarrow> update_fields (existing_rows ! i) n | None \<Rightarrow> existing_rows ! i)" by blast
    note idk = existing_key_identity[OF k]
    show ?thesis
    proof (cases "incoming platform mode new_rows k")
      case None
      with idk r show ?thesis by simp
    next
      case (Some n)
      from incoming_Some[OF Some]
      have n: "n \<in> set new_rows" "identity (PStr platform) (PStr mode) n = Some k"
        by simp_all
      with nw have "distinct (map fst n)" by blast
      then have "map_of (rev n) = map_of n" by (rule map_of_rev_distinct)
      then have "map_of (rows ! i) f =
                   (case map_of n f of Some v \<Rightarrow> Some v | None \<Rightarrow> map_of (existing_rows ! i) f)" for f
        using r Some by (simp add: map_of_update_fields map_add_def)
      with idk n Some show ?thesis by simp
    qed
  qed
  have example: "merge_into_benchmark ledger_columns ledger_rows rerun_rows ''claude'' ''single''
                   = Inr merged_ledger"
    by code_simp
  from m len frame have "\<exists>out. merge_into_benchmark fieldnames existing_rows new_rows platform mode = Inr out
           \<and> length out = length existing_rows
           \<and> (\<forall>i < length existing_rows.
                \<exists>k. identity PNone PNone (existing_rows ! i) = Some k \<and>
                (case incoming platform mode new_rows k of
                   None \<Rightarrow> out ! i = existing_rows ! i
                 | Some n \<Rightarrow> n \<in> set new_rows \<and> identity (PStr platform) (PStr mode) n = Some k \<and>
                     (\<forall>f. map_of (out ! i) f =
                           (case map_of n f of Some v \<Rightarrow> Some v
                            | None \<Rightarrow> map_of (existing_rows ! i) f))))"
    by (intro exI[of _ rows] conjI allI impI) (rule m, rule len, erule frame)
  from this example show ?thesis by (rule conjI)
qed

theorem merge_into_benchmark_frame_witness:
  "list_all (\<lambda>r. \<not> isl (existing_key r) \<and> set (map fst r) \<subseteq> set ledger_columns) ledger_rows
   \<and> list_all (\<lambda>n. \<not> isl (new_key ''claude'' ''single'' n) \<and> distinct (map fst n)
                  \<and> set (map fst n) \<subseteq> set ledger_columns) rerun_rows
   \<and> merge_into_benchmark ledger_columns ledger_rows rerun_rows ''claude'' ''single''
       = Inr merged_ledger
   \<and> length merged_ledger = length ledger_rows
   \<and> identity PNone PNone (ledger_rows ! 0) = Some (PStr ''claude'', PStr ''single'', PStr ''CPI'', 1)
   \<and> incoming ''claude'' ''single'' rerun_rows (PStr ''claude'', PStr ''single'', PStr ''CPI'', 1)
       = Some (rerun_rows ! 0)
   \<and> incoming ''claude'' ''single'' rerun_rows (PStr ''claude'', PStr ''single'', PStr ''CPI'', 2)
       = None"
proof -
  have e: "list_all (\<lambda>r. \<not> isl (existing_key r) \<and> set (map fst r) \<subseteq> set ledger_columns) ledger_rows"
    by code_simp
  have n: "list_all (\<lambda>n. \<not> isl (new_key ''claude'' ''single'' n) \<and> distinct (map fst n)
                  \<and> set (map fst n) \<subseteq> set ledger_columns) rerun_rows"
    by code_simp
  have l: "length merged_ledger = length ledger_rows"
    by (simp add: merged_ledger_def ledger_rows_def)
  have i0: "identity PNone PNone (ledger_rows ! 0) = Some (PStr ''claude'', PStr ''single'', PStr ''CPI'', 1)"
    by code_simp
  have i1: "incoming ''claude'' ''single'' rerun_rows (PStr ''claude'', PStr ''single'', PStr ''CPI'', 1)
       = Some (rerun_rows ! 0)"
    by code_simp
  have i2: "incoming ''claude'' ''single'' rerun_rows (PStr ''claude'', PStr ''single'', PStr ''CPI'', 2)
       = None"
    by code_simp
  from merge_into_benchmark_frame[OF e[unfolded list_all_iff] n[unfolded list_all_iff]]
  have "merge_into_benchmark ledger_columns ledger_rows rerun_rows ''claude'' ''single''
       = Inr merged_ledger" by (rule conjunct2)
  with e n l i0 i1 i2 show ?thesis by simp
qed

subsection \<open>Marking rows for re-judging\<close>

lemma map_fst_dict_set_present:
  "map_of d k \<noteq> None \<Longrightarrow> map fst (dict_set d k v) = map fst d"
  by (induction d) (auto split: if_splits)

lemma map_of_clear_fields:
  "map_of (clear_fields fs r) f =
     (if f \<in> set fs \<and> map_of r f \<noteq> None then Some (PStr []) else map_of r f)"
  by (induction fs arbitrary: r) (auto simp: dict_has_def map_of_dict_set)

lemma map_fst_clear_fields: "map fst (clear_fields fs r) = map fst r"
  by (induction fs arbitrary: r) (simp_all add: dict_has_def map_fst_dict_set_present)

lemma judge_loop_all2:
  "judge_loop uq rj ex = Inr out \<Longrightarrow>
   list_all2 (\<lambda>r r'. \<exists>k. existing_key r = Inr k \<and>
                r' = (if k \<in> set uq \<and> rj then clear_fields judge_fields r else r)) ex out"
proof (induction ex arbitrary: out)
  case Nil
  then show ?case by simp
next
  case (Cons r rs)
  from Cons.prems obtain k rs' where k: "existing_key r = Inr k"
    and rs: "judge_loop uq rj rs = Inr rs'"
    and out: "out = (if k \<in> set uq \<and> rj then clear_fields judge_fields r else r) # rs'"
    by (auto split: sum.splits)
  from Cons.IH[OF rs] have "list_all2 (\<lambda>r r'. \<exists>k. existing_key r = Inr k \<and>
                r' = (if k \<in> set uq \<and> rj then clear_fields judge_fields r else r)) rs rs'" .
  with k show ?case unfolding out by (simp only: list_all2_Cons) blast
qed

lemma judge_loop_total:
  "\<forall>r \<in> set ex. \<not> isl (existing_key r) \<Longrightarrow> \<exists>out. judge_loop uq rj ex = Inr out"
proof (induction ex)
  case Nil
  then show ?case by simp
next
  case (Cons r rs)
  then obtain k where "existing_key r = Inr k" by (cases "existing_key r") auto
  with Cons show ?case by auto
qed

lemma cleared_row:
  "map_of (clear_fields judge_fields r) f =
     (if f \<in> set [''score_filter_accuracy'', ''score_data_retrieval'',
                    ''score_response_quality'', ''score_behavior'', ''filter_notes'',
                    ''data_notes'', ''response_notes'', ''behavior_notes'', ''total_score'',
                    ''judge_reasoning'']
         \<and> map_of r f \<noteq> None
      then Some (PStr []) else map_of r f)"
  by (simp only: map_of_clear_fields judge_fields_def)

lemma automatic_scores_not_judge_fields:
  "''score_routing'' \<notin> set judge_fields \<and> ''score_ordering'' \<notin> set judge_fields"
  by code_simp

lemma cleared_row_scores:
  "map_of (clear_fields judge_fields r) ''score_routing'' = map_of r ''score_routing''
   \<and> map_of (clear_fields judge_fields r) ''score_ordering'' = map_of r ''score_ordering''"
  using automatic_scores_not_judge_fields
  by (simp only: map_of_clear_fields simp_thms if_False)

text \<open>
  Claim C8. Let every row of the judge ledger have an identity key and only fields that
  are columns. With \<open>rejudge\<close> set, the ledger written back has the same rows in the same
  order. In a row whose identity (its platform, mode, dataset and \<^verbatim>\<open>no\<close>) is in the
  updated set, each of the ten judge fields the row has (the four judged scores, the four
  notes, the total and the reasoning) is the empty string, and its fields and every other
  field are as before, the routing and the ordering score among them; a row whose
  identity is not in the updated set is unchanged. In the judge ledger of five rows the
  first row alone is marked: the rows that differ from it in \<^verbatim>\<open>no\<close>, dataset, platform
  or mode are as before.
\<close>

theorem merge_into_judge_frame:
  assumes ex: "\<forall>r \<in> set existing_rows.
                 \<not> isl (existing_key r) \<and> set (map fst r) \<subseteq> set fieldnames"
  shows "(\<exists>out. merge_into_judge (Some (fieldnames, existing_rows)) updated_queries True
                  = Inr (Some out)
           \<and> length out = length existing_rows
           \<and> (\<forall>i < length existing_rows.
                \<exists>k. identity PNone PNone (existing_rows ! i) = Some k \<and>
                (if k \<in> set updated_queries
                 then map fst (out ! i) = map fst (existing_rows ! i) \<and>
                      (\<forall>f. map_of (out ! i) f =
                            (if f \<in> set [''score_filter_accuracy'', ''score_data_retrieval'',
                                           ''score_response_quality'', ''score_behavior'',
                                           ''filter_notes'', ''data_notes'', ''response_notes'',
                                           ''behavior_notes'', ''total_score'', ''judge_reasoning'']
                                \<and> map_of (existing_rows ! i) f \<noteq> None
                             then Some (PStr []) else map_of (existing_rows ! i) f)) \<and>
                      map_of (out ! i) ''score_routing''
                        = map_of (existing_rows ! i) ''score_routing'' \<and>
                      map_of (out ! i) ''score_ordering''
                        = map_of (existing_rows ! i) ''score_ordering''
                 else out ! i = existing_rows ! i)))
         \<and> merge_into_judge (Some (judged_columns, judged_rows)) updated_keys True
             = Inr (Some rejudged_ledger)"
proof -
  from ex have "\<forall>r \<in> set existing_rows. \<not> isl (existing_key r)" by blast
  from judge_loop_total[OF this]
  obtain rows where rows: "judge_loop updated_queries True existing_rows = Inr rows" by blast
  note a2 = judge_loop_all2[OF rows]
  then have len: "length rows = length existing_rows" by (simp add: list_all2_lengthD)
  have nth: "\<exists>k. existing_key (existing_rows ! i) = Inr k \<and>
               rows ! i = (if k \<in> set updated_queries
                           then clear_fields judge_fields (existing_rows ! i)
                           else existing_rows ! i)"
    if "i < length existing_rows" for i
    using list_all2_nthD[OF a2 that] by simp
  have fields: "set (map fst r') \<subseteq> set fieldnames" if "r' \<in> set rows" for r'
  proof -
    from that obtain i where i: "i < length rows" "r' = rows ! i" by (auto simp: in_set_conv_nth)
    with len have il: "i < length existing_rows" by simp
    from il ex have e: "set (map fst (existing_rows ! i)) \<subseteq> set fieldnames" by simp
    from nth[OF il] have "map fst (rows ! i) = map fst (existing_rows ! i)"
      by (auto simp: map_fst_clear_fields)
    with e i show ?thesis by simp
  qed
  then have w: "writerows fieldnames rows = Inr rows" by (simp add: writerows_ok)
  have m: "merge_into_judge (Some (fieldnames, existing_rows)) updated_queries True = Inr (Some rows)"
    by (simp add: merge_into_judge_def rows w)
  have frame: "\<exists>k. identity PNone PNone (existing_rows ! i) = Some k \<and>
                (if k \<in> set updated_queries
                 then map fst (rows ! i) = map fst (existing_rows ! i) \<and>
                      (\<forall>f. map_of (rows ! i) f =
                            (if f \<in> set [''score_filter_accuracy'', ''score_data_retrieval'',
                                           ''score_response_quality'', ''score_behavior'',
                                           ''filter_notes'', ''data_notes'', ''response_notes'',
                                           ''behavior_notes'', ''total_score'', ''judge_reasoning'']
                                \<and> map_of (existing_rows ! i) f \<noteq> None
                             then Some (PStr []) else map_of (existing_rows ! i) f)) \<and>
                      map_of (rows ! i) ''score_routing''
                        = map_of (existing_rows ! i) ''score_routing'' \<and>
                      map_of (rows ! i) ''score_ordering''
                        = map_of (existing_rows ! i) ''score_ordering''
                 else rows ! i = existing_rows ! i)"
    if il: "i < length existing_rows" for i
  proof -
    from nth[OF il] obtain k where k: "existing_key (existing_rows ! i) = Inr k"
      and r: "rows ! i = (if k \<in> set updated_queries
                           then clear_fields judge_fields (existing_rows ! i)
                           else existing_rows ! i)" by blast
    note idk = existing_key_identity[OF k]
    show ?thesis
    proof (cases "k \<in> set updated_queries")
      case True
      with r have c: "rows ! i = clear_fields judge_fields (existing_rows ! i)" by simp
      have "map fst (rows ! i) = map fst (existing_rows ! i) \<and>
                      (\<forall>f. map_of (rows ! i) f =
                            (if f \<in> set [''score_filter_accuracy'', ''score_data_retrieval'',
                                           ''score_response_quality'', ''score_behavior'',
                                           ''filter_notes'', ''data_notes'', ''response_notes'',
                                           ''behavior_notes'', ''total_score'', ''judge_reasoning'']
                                \<and> map_of (existing_rows ! i) f \<noteq> None
                             then Some (PStr []) else map_of (existing_rows ! i) f)) \<and>
                      map_of (rows ! i) ''score_routing''
                        = map_of (existing_rows ! i) ''score_routing'' \<and>
                      map_of (rows ! i) ''score_ordering''
                        = map_of (existing_rows ! i) ''score_ordering''"
        unfolding c
        by (intro conjI allI map_fst_clear_fields cleared_row
            cleared_row_scores[THEN conjunct1] cleared_row_scores[THEN conjunct2])
      then show ?thesis
        by - (intro exI[of _ k] conjI, rule idk, unfold if_P[OF True], assumption)
    next
      case False
      with r have "rows ! i = existing_rows ! i" by simp
      with idk False show ?thesis by (intro exI[of _ k]) (simp only: if_False simp_thms)
    qed
  qed
  have example: "merge_into_judge (Some (judged_columns, judged_rows)) updated_keys True
             = Inr (Some rejudged_ledger)"
    by code_simp
  from m len frame
  have "\<exists>out. merge_into_judge (Some (fieldnames, existing_rows)) updated_queries True
                  = Inr (Some out)
           \<and> length out = length existing_rows
           \<and> (\<forall>i < length existing_rows.
                \<exists>k. identity PNone PNone (existing_rows ! i) = Some k \<and>
                (if k \<in> set updated_queries
                 then map fst (out ! i) = map fst (existing_rows ! i) \<and>
                      (\<forall>f. map_of (out ! i) f =
                            (if f \<in> set [''score_filter_accuracy'', ''score_data_retrieval'',
                                           ''score_response_quality'', ''score_behavior'',
                                           ''filter_notes'', ''data_notes'', ''response_notes'',
                                           ''behavior_notes'', ''total_score'', ''judge_reasoning'']
                                \<and> map_of (existing_rows ! i) f \<noteq> None
                             then Some (PStr []) else map_of (existing_rows ! i) f)) \<and>
                      map_of (out ! i) ''score_routing''
                        = map_of (existing_rows ! i) ''score_routing'' \<and>
                      map_of (out ! i) ''score_ordering''
                        = map_of (existing_rows ! i) ''score_ordering''
                 else out ! i = existing_rows ! i))"
    by (intro exI[of _ rows] conjI allI impI) (rule m, rule len, erule frame)
  from this example show ?thesis by (rule conjI)
qed

theorem merge_into_judge_frame_witness:
  "list_all (\<lambda>r. \<not> isl (existing_key r) \<and> set (map fst r) \<subseteq> set judged_columns) judged_rows
   \<and> merge_into_judge (Some (judged_columns, judged_rows)) updated_keys True
       = Inr (Some rejudged_ledger)
   \<and> length rejudged_ledger = length judged_rows
   \<and> identity PNone PNone (judged_rows ! 0) = Some (PStr ''claude'', PStr ''single'', PStr ''CPI'', 1)
   \<and> map_of (rejudged_ledger ! 0) ''total_score'' = Some (PStr [])
   \<and> map_of (rejudged_ledger ! 0) ''score_routing'' = Some (PStr ''1'')"
proof -
  have e: "list_all (\<lambda>r. \<not> isl (existing_key r) \<and> set (map fst r) \<subseteq> set judged_columns) judged_rows"
    by code_simp
  have l: "length rejudged_ledger = length judged_rows"
    by (simp add: rejudged_ledger_def judged_rows_def)
  have i0: "identity PNone PNone (judged_rows ! 0) = Some (PStr ''claude'', PStr ''single'', PStr ''CPI'', 1)"
    by code_simp
  have t: "map_of (rejudged_ledger ! 0) ''total_score'' = Some (PStr [])"
    by code_simp
  have s: "map_of (rejudged_ledger ! 0) ''score_routing'' = Some (PStr ''1'')"
    by code_simp
  from merge_into_judge_frame[OF e[unfolded list_all_iff], of updated_keys]
  have "merge_into_judge (Some (judged_columns, judged_rows)) updated_keys True
       = Inr (Some rejudged_ledger)" by (rule conjunct2)
  with e l i0 t s show ?thesis by simp
qed

subsection \<open>A resumed judging run\<close>

lemma judge_row_update:
  "judge_row call_judge row = Inr out_row \<Longrightarrow>
   \<exists>scored. out_row = update_fields row scored \<and> map fst scored = judge_columns"
  unfolding judge_row_def Let_def judge_columns_def
  by (fastforce split: sum.splits option.splits)

lemma judge_row_fields:
  "judge_row call_judge row = Inr out_row \<Longrightarrow>
   set (map fst out_row) = set (map fst row) \<union> set judge_columns"
  using judge_row_update[of call_judge row out_row] fields_update_fields[of row] by metis

lemma writerows_snoc:
  "writerows fs results = Inr results \<Longrightarrow> set (map fst r) \<subseteq> set fs \<Longrightarrow>
   writerows fs (results @ [r]) = Inr (results @ [r])"
  by (auto simp: writerows_def list_all_iff split: if_splits)

lemma judge_rows_frame:
  assumes "writerows out_fields results = Inr results"
      and "\<forall>row \<in> set (drop (nat (start - row_num)) rows).
             set (map fst row) \<union> set judge_columns \<subseteq> set out_fields
             \<and> \<not> isl (judge_row call_judge row)"
  shows "judge_rows call_judge out_fields start row_num rows results kept =
           \<lparr> written = (if drop (nat (start - row_num)) rows = [] then kept
                        else Some (results @ map (judged call_judge)
                                                 (drop (nat (start - row_num)) rows))),
             raised = None \<rparr>"
  using assms
proof (induction rows arbitrary: row_num results kept)
  case Nil
  then show ?case by simp
next
  case (Cons row rows)
  show ?case
  proof (cases "row_num < start")
    case True
    then have n: "nat (start - row_num) = Suc (nat (start - (row_num + 1)))" by simp
    from Cons.prems(2) have
      "\<forall>row \<in> set (drop (nat (start - (row_num + 1))) rows).
             set (map fst row) \<union> set judge_columns \<subseteq> set out_fields
             \<and> \<not> isl (judge_row call_judge row)"
      by (simp only: n drop_Suc_Cons)
    from Cons.IH[OF Cons.prems(1) this, of kept] True show ?thesis
      by (simp only: n drop_Suc_Cons judge_rows.simps if_True)
  next
    case False
    then have n: "nat (start - row_num) = 0" "nat (start - (row_num + 1)) = 0" by simp_all
    from Cons.prems(2) have row: "set (map fst row) \<union> set judge_columns \<subseteq> set out_fields"
      "\<not> isl (judge_row call_judge row)"
      and rest: "\<forall>row \<in> set (drop (nat (start - (row_num + 1))) rows).
             set (map fst row) \<union> set judge_columns \<subseteq> set out_fields
             \<and> \<not> isl (judge_row call_judge row)"
      by (simp_all add: n)
    from row(2) obtain out_row where o: "judge_row call_judge row = Inr out_row"
      by (cases "judge_row call_judge row") auto
    then have j: "judged call_judge row = out_row" by (simp add: judged_def)
    from judge_row_fields[OF o] row(1) have "set (map fst out_row) \<subseteq> set out_fields" by simp
    from writerows_snoc[OF Cons.prems(1) this]
    have w: "writerows out_fields (results @ [out_row]) = Inr (results @ [out_row])" .
    from Cons.IH[OF w rest, of "Some (results @ [out_row])"] False o w j show ?thesis
      by (simp add: n)
  qed
qed

lemma rows_from_Nil: "rows \<noteq> [] \<Longrightarrow> (rows_from start rows = []) = (int (length rows) < start)"
  by (cases rows) (auto simp: rows_from_def)

text \<open>
  Claim C9. Let a run be resumed at row \<open>start\<close> greater than 1, over a benchmark CSV that
  is not empty, with a file of earlier results whose rows have only columns of the output;
  and let the judging of every row from \<open>start\<close> on raise nothing, these rows having only
  fields of the first row. Then the run raises nothing, and the rows it leaves in the file
  are the earlier results, unchanged and in their order, followed by the judged rows of
  the rows from \<open>start\<close> on, in their order. When \<open>start\<close> is beyond the last row the file
  is not written to.
\<close>

theorem resumed_run_frame:
  assumes st: "1 < start"
      and ne: "rows \<noteq> []"
      and ex: "\<forall>r \<in> set existing. set (map fst r) \<subseteq> set (map fst (hd rows) @ judge_columns)"
      and rw: "\<forall>row \<in> set (rows_from start rows).
                 set (map fst row) \<subseteq> set (map fst (hd rows))
                 \<and> \<not> isl (judge_row call_judge row)"
  shows "judge_main call_judge rows start (Some existing) =
           \<lparr> written = (if int (length rows) < start then None
                        else Some (existing @ map (judged call_judge) (rows_from start rows))),
             raised = None \<rparr>"
proof -
  from ne obtain first_row rest where r: "rows = first_row # rest" by (cases rows) auto
  let ?out_fields = "map fst first_row @ judge_columns"
  from ex r have w: "writerows ?out_fields existing = Inr existing"
    by (simp add: writerows_ok)
  from rw r have "\<forall>row \<in> set (drop (nat (start - 1)) rows).
             set (map fst row) \<union> set judge_columns \<subseteq> set ?out_fields
             \<and> \<not> isl (judge_row call_judge row)"
    by (auto simp: rows_from_def)
  from judge_rows_frame[OF w this, of None]
  have "judge_rows call_judge ?out_fields start 1 rows existing None =
           \<lparr> written = (if rows_from start rows = [] then None
                        else Some (existing @ map (judged call_judge) (rows_from start rows))),
             raised = None \<rparr>"
    by (simp only: rows_from_def)
  with st r rows_from_Nil[OF ne, of start] show ?thesis
    by (simp add: judge_main_def)
qed

theorem resumed_run_frame_witness:
  "(1 :: int) < 3 \<and> bench_rows \<noteq> []
   \<and> list_all (\<lambda>r. set (map fst r) \<subseteq> set (map fst (hd bench_rows) @ judge_columns)) earlier_results
   \<and> list_all (\<lambda>row. set (map fst row) \<subseteq> set (map fst (hd bench_rows))
                     \<and> \<not> isl (judge_row fixed_judge row)) (rows_from 3 bench_rows)
   \<and> written (judge_main fixed_judge bench_rows 3 (Some earlier_results)) =
       Some (earlier_results @ [judged fixed_judge (bench_rows ! 2)])"
proof -
  have ne: "bench_rows \<noteq> []" by (simp add: bench_rows_def)
  have e: "list_all (\<lambda>r. set (map fst r) \<subseteq> set (map fst (hd bench_rows) @ judge_columns)) earlier_results"
    by code_simp
  have f: "rows_from 3 bench_rows = [bench_rows ! 2]"
    by (simp add: rows_from_def bench_rows_def)
  have j: "\<not> isl (judge_row fixed_judge (bench_rows ! 2))" by code_simp
  have s: "set (map fst (bench_rows ! 2)) \<subseteq> set (map fst (hd bench_rows))"
    by (simp add: bench_rows_def)
  have l: "\<not> int (length bench_rows) < 3" by (simp add: bench_rows_def)
  have n: "list_all (\<lambda>row. set (map fst row) \<subseteq> set (map fst (hd bench_rows))
                     \<and> \<not> isl (judge_row fixed_judge row)) (rows_from 3 bench_rows)"
    using j s by (simp add: f)
  have st: "(1 :: int) < 3" by simp
  from resumed_run_frame[OF st ne e[unfolded list_all_iff] n[unfolded list_all_iff]] l f
  have "written (judge_main fixed_judge bench_rows 3 (Some earlier_results)) =
       Some (earlier_results @ [judged fixed_judge (bench_rows ! 2)])" by simp
  with ne e n show ?thesis by simp
qed

lemma resumed_run_example:
  "judge_main fixed_judge bench_rows 3 (Some earlier_results) =
     \<lparr> written = Some (earlier_results @
          [[(''dataset'', PStr ''CPI''), (''no'', PStr ''3''), (''query'', PStr ''q3''),
            (''dataset_routed_to'', PStr ''cpi''), (''tool_trace'', PStr ''1_know -> 4_data''),
            (''score_routing'', PInt 1), (''score_ordering'', PInt 0),
            (''score_filter_accuracy'', PStr ''N/A''), (''filter_notes'', PStr ''n''),
            (''score_data_retrieval'', PInt 1), (''data_notes'', PStr ''n''),
            (''score_response_quality'', PInt 1), (''response_notes'', PStr ''n''),
            (''score_behavior'', PInt 0), (''behavior_notes'', PStr ''n''),
            (''total_score'', PInt 3), (''judge_reasoning'', PStr ''r'')]]),
       raised = None \<rparr>"
  by code_simp

subsection \<open>The total score of a judged row\<close>






end
